theory Spec2Isabelle
  imports Complex_Main "HOL-Library.Sublist" "HOL-Library.Char_ord" "HOL-Library.List_Lexorder"
    "HOL-Library.Product_Lexorder" "HOL-Library.Multiset"
begin

section \<open>Python strings\<close>

text \<open>
  A Python \<^verbatim>\<open>str\<close> is modelled as a \<^typ>\<open>string\<close>. Only the ASCII behaviour of
  \<^verbatim>\<open>lower\<close> and \<^verbatim>\<open>strip\<close> is modelled: characters beyond code 127 are left as
  they are and are never white space.
\<close>

definition lower_char :: "char \<Rightarrow> char" where
  "lower_char c =
     (let n = (of_char c :: nat) in if 65 \<le> n \<and> n \<le> 90 then char_of (n + 32) else c)"

definition lower :: "string \<Rightarrow> string" where
  "lower s = map lower_char s"

text \<open>\<^verbatim>\<open>k in d\<close> on two strings: \<open>k\<close> starts at some position of \<open>d\<close>.\<close>

fun str_in :: "string \<Rightarrow> string \<Rightarrow> bool" where
  "str_in k [] = (k = [])"
| "str_in k (c # cs) = (prefix k (c # cs) \<or> str_in k cs)"

text \<open>\<^verbatim>\<open>s.split(',')\<close>: the pieces between the separators; never the empty list.\<close>

fun split :: "char \<Rightarrow> string \<Rightarrow> string list" where
  "split sep [] = [[]]"
| "split sep (c # cs) =
     (if c = sep then [] # split sep cs
      else (case split sep cs of
              [] \<Rightarrow> [[c]]
            | p # ps \<Rightarrow> (c # p) # ps))"

definition isspace :: "char \<Rightarrow> bool" where
  "isspace c = (let n = (of_char c :: nat) in (9 \<le> n \<and> n \<le> 13) \<or> (28 \<le> n \<and> n \<le> 32))"

definition strip :: "string \<Rightarrow> string" where
  "strip s = rev (dropWhile isspace (rev (dropWhile isspace s)))"

text \<open>\<^verbatim>\<open>s.replace(c, '')\<close> for a one-character \<open>c\<close>.\<close>

definition remove_char :: "char \<Rightarrow> string \<Rightarrow> string" where
  "remove_char c s = filter (\<lambda>x. x \<noteq> c) s"

section \<open>The sign-aware classifier of the visualizer\<close>

text \<open>
  \<^verbatim>\<open>any(word in desc for word in words)\<close>.
\<close>

definition any_word_in :: "string list \<Rightarrow> string \<Rightarrow> bool" where
  "any_word_in ws desc = list_ex (\<lambda>word. str_in word desc) ws"

text \<open>
  \<^verbatim>\<open>identify_transaction_type(row)\<close> reads the row's Description and Amount. The
  amount is an exact rational here; only its sign is used.
\<close>

definition identify_transaction_type :: "string \<Rightarrow> rat \<Rightarrow> string" where
  "identify_transaction_type description amount =
     (let desc = lower description in
      if str_in ''initial fund capital'' desc then ''Initial Capital''
      else if amount < 0 \<and> any_word_in
          [''purchase'', ''accumulate'', ''long position'', ''acquisition'', ''investment in''] desc
        then ''Buy''
      else if amount > 0 \<and> any_word_in
          [''sell'', ''liquidate'', ''close position'', ''divestment'', ''profit-taking''] desc
        then ''Sell''
      else if str_in ''dividend'' desc then ''Dividend''
      else if amount < 0 \<and> any_word_in
          [''fee'', ''expense'', ''commission'', ''research'', ''audit''] desc
        then ''Fee''
      else ''Other'')"

text \<open>The closed enumeration of categories named by the specification.\<close>

definition seven_categories :: "string set" where
  "seven_categories =
     {''Buy'', ''Sell'', ''Dividend'', ''Fee'', ''Capital'', ''Income'', ''Other''}"

definition transaction_types :: "string set" where
  "transaction_types =
     {''Initial Capital'', ''Buy'', ''Sell'', ''Dividend'', ''Fee'', ''Other''}"

section \<open>The keyword classifier of the tracker\<close>

text \<open>
  \<^verbatim>\<open>self.categories\<close>, a dict literal, in its insertion order.
\<close>

definition categories :: "(string \<times> string list) list" where
  "categories =
     [(''Buy'', [''Purchase'', ''Accumulate'', ''Long position'', ''Strategic acquisition'',
                 ''Initial investment'']),
      (''Sell'', [''Sell'', ''Liquidate'', ''Close position'', ''Profit-taking'',
                  ''Strategic divestment'']),
      (''Dividend'', [''Dividend'', ''payout'', ''income'']),
      (''Fee'', [''Management fee'', ''Administrative expense'', ''Trading commission'',
                 ''Research'', ''audit'', ''Performance fee'']),
      (''Capital'', [''Initial fund capital'', ''deployment'']),
      (''Other'', [])]"

text \<open>
  The inner loop over the keywords of one worksheet row:
  \<^verbatim>\<open>if keyword and (keyword in description or keyword in merchant_name): return category\<close>.
  The result says whether the loop returns.
\<close>

fun keywords_hit :: "string list \<Rightarrow> string \<Rightarrow> string \<Rightarrow> bool" where
  "keywords_hit [] description merchant_name = False"
| "keywords_hit (keyword # keywords) description merchant_name =
     (if keyword \<noteq> [] \<and> (str_in keyword description \<or> str_in keyword merchant_name)
      then True
      else keywords_hit keywords description merchant_name)"

text \<open>
  \<^verbatim>\<open>[k.strip().lower() for k in row[1].split(',')]\<close>.
\<close>

definition row_keywords :: "string list \<Rightarrow> string list" where
  "row_keywords row = map (\<lambda>k. lower (strip k)) (split CHR '','' (row ! 1))"

text \<open>
  The loop over the rows of the Categories worksheet; \<open>None\<close> when it ends
  without returning. A row shorter than two cells is skipped.
\<close>

fun scan_rows :: "string list list \<Rightarrow> string \<Rightarrow> string \<Rightarrow> string option" where
  "scan_rows [] description merchant_name = None"
| "scan_rows (row # category_data) description merchant_name =
     (if length row < 2 then scan_rows category_data description merchant_name
      else if keywords_hit (row_keywords row) description merchant_name then Some (row ! 0)
      else scan_rows category_data description merchant_name)"

text \<open>
  The loops of the \<^verbatim>\<open>except\<close> branch, over \<^verbatim>\<open>self.categories.items()\<close>:
  \<^verbatim>\<open>if keyword.lower() in description or keyword.lower() in merchant_name\<close>.
\<close>

fun default_keywords_hit :: "string list \<Rightarrow> string \<Rightarrow> string \<Rightarrow> bool" where
  "default_keywords_hit [] description merchant_name = False"
| "default_keywords_hit (keyword # keywords) description merchant_name =
     (if str_in (lower keyword) description \<or> str_in (lower keyword) merchant_name
      then True
      else default_keywords_hit keywords description merchant_name)"

fun scan_defaults ::
  "(string \<times> string list) list \<Rightarrow> string \<Rightarrow> string \<Rightarrow> string option" where
  "scan_defaults [] description merchant_name = None"
| "scan_defaults ((category, keywords) # items) description merchant_name =
     (if default_keywords_hit keywords description merchant_name then Some category
      else scan_defaults items description merchant_name)"

text \<open>
  \<^verbatim>\<open>categorize_transaction(description, merchant_name)\<close>. The first argument is what
  \<^verbatim>\<open>self.categories_worksheet.get_all_values()\<close> gives: \<open>Some values\<close>, header row
  first, or \<open>None\<close> when the call raises and the \<^verbatim>\<open>except\<close> branch runs.
\<close>

definition categorize_transaction ::
  "string list list option \<Rightarrow> string \<Rightarrow> string \<Rightarrow> string" where
  "categorize_transaction worksheet_values description0 merchant_name0 =
     (let description = lower description0;
          merchant_name = lower merchant_name0;
          found = (case worksheet_values of
                     Some values \<Rightarrow> scan_rows (drop 1 values) description merchant_name
                   | None \<Rightarrow> scan_defaults categories description merchant_name)
      in case found of
           Some category \<Rightarrow> category
         | None \<Rightarrow>
             if str_in ''income'' (lower description) \<or> str_in ''deposit'' (lower description)
                \<or> str_in ''payroll'' (lower description)
             then ''Income''
             else ''Other'')"

subsection \<open>The classifier as the specification words it\<close>







section \<open>Decimal numerals\<close>

text \<open>\<^verbatim>\<open>str(n)\<close> of a Python int, as the f-strings of the synthesized ids use it.\<close>

definition digit_char :: "nat \<Rightarrow> char" where
  "digit_char d = ''0123456789'' ! d"

text \<open>The digits of an integer that is not negative, most significant first.\<close>

function str_digits :: "int \<Rightarrow> string" where
  "str_digits i =
     (if i < 10 then [digit_char (nat i)]
      else str_digits (i div 10) @ [digit_char (nat (i mod 10))])"
  by pat_completeness auto
termination
  by (relation "measure nat") auto

definition str_int :: "int \<Rightarrow> string" where
  "str_int i = (if i < 0 then CHR ''-'' # str_digits (- i) else str_digits i)"

definition str_nat :: "nat \<Rightarrow> string" where
  "str_nat n = str_digits (int n)"

definition is_digit :: "char \<Rightarrow> bool" where
  "is_digit c = (let n = (of_char c :: nat) in 48 \<le> n \<and> n \<le> 57)"

definition digits_value :: "string \<Rightarrow> int" where
  "digits_value ds = foldl (\<lambda>a c. 10 * a + (of_char c - 48)) 0 ds"

section \<open>The world outside the program\<close>

text \<open>
  What the import reads from outside is gathered in one record, so that the functions
  below are pure in it:
  \<^item> \<open>to_float\<close> is Python's \<^verbatim>\<open>float\<close> on a string, \<open>None\<close> when it raises
    \<^verbatim>\<open>ValueError\<close>; amounts are exact rationals, rounding to a double is not modelled;
  \<^item> \<open>strptime\<close> is \<^verbatim>\<open>datetime.strptime(s, date_format).strftime("%Y-%m-%d")\<close>, \<open>None\<close>
    when it raises \<^verbatim>\<open>ValueError\<close>;
  \<^item> \<open>now n\<close> is the value of \<^verbatim>\<open>int(datetime.now().timestamp())\<close> at the \<open>n\<close>-th reading of
    the clock;
  \<^item> \<open>categories_values\<close> is what \<^verbatim>\<open>categories_worksheet.get_all_values()\<close> gives;
  \<^item> \<open>col_values_ok\<close> says whether \<^verbatim>\<open>transactions_worksheet.col_values(6)\<close> returns;
  \<^item> \<open>write_ok n\<close> says whether the \<open>n\<close>-th write call to the Transactions worksheet
    returns (otherwise it raises and writes nothing);
  \<^item> \<open>dashboard_ok\<close> says whether \<^verbatim>\<open>update_dashboard()\<close> returns.
\<close>

record env =
  to_float :: "string \<Rightarrow> rat option"
  strptime :: "string \<Rightarrow> string option"
  now :: "nat \<Rightarrow> int"
  categories_values :: "string list list option"
  col_values_ok :: bool
  write_ok :: "nat \<Rightarrow> bool"
  dashboard_ok :: bool

datatype error = ValueError | APIError

text \<open>
  A row of the Transactions worksheet:
  \<^verbatim>\<open>[formatted_date, description, amount, category, account, transaction_id, pending, merchant]\<close>.
\<close>

record sheet_row =
  row_date :: string
  row_description :: string
  row_amount :: rat
  row_category :: string
  row_account :: string
  row_transaction_id :: string
  row_pending :: string
  row_merchant :: string

text \<open>
  What a scheduler does to its sink, in order: a write call with its group and whether
  it returned, and a pacing delay (\<^verbatim>\<open>time.sleep\<close>).
\<close>

datatype 'g event = Write 'g bool | Sleep

text \<open>
  The state the import works on: the data rows of the Transactions worksheet (below the
  header), the number of clock readings and of write calls so far, and the trace of
  the batched writes.
\<close>

record world =
  transactions :: "sheet_row list"
  clock_reads :: nat
  write_calls :: nat
  trace :: "sheet_row list event list"

text \<open>A raw record is a row of \<^verbatim>\<open>csv.DictReader\<close>: a dict from column names to strings.\<close>

type_synonym raw_record = "string \<rightharpoonup> string"

text \<open>\<^verbatim>\<open>d.get(key, default)\<close>.\<close>

definition dict_get :: "raw_record \<Rightarrow> string \<Rightarrow> string \<Rightarrow> string" where
  "dict_get d key dflt = (case d key of Some v \<Rightarrow> v | None \<Rightarrow> dflt)"

section \<open>Normalising a record\<close>

text \<open>
  \<^verbatim>\<open>try: amount = float(transaction.get('Amount', 0))\<close>
  \<^verbatim>\<open>except ValueError: amount = float(transaction.get('Amount', '0').replace('$', '').replace(',', ''))\<close>.
  \<open>None\<close> when the second \<^verbatim>\<open>float\<close> raises \<^verbatim>\<open>ValueError\<close> too: nothing catches it
  here. A record without the field gives \<^verbatim>\<open>float(0)\<close>.
\<close>

definition parse_amount :: "env \<Rightarrow> raw_record \<Rightarrow> rat option" where
  "parse_amount E transaction =
     (case transaction ''Amount'' of
        None \<Rightarrow> Some 0
      | Some s \<Rightarrow>
          (case to_float E s of
             Some amount \<Rightarrow> Some amount
           | None \<Rightarrow> to_float E (remove_char CHR '','' (remove_char CHR ''$'' s))))"

text \<open>The date as parsed and formatted again, or the raw string when parsing fails.\<close>

definition format_date :: "env \<Rightarrow> raw_record \<Rightarrow> string" where
  "format_date E transaction =
     (let date_str = dict_get transaction ''Date'' '''' in
      case strptime E date_str of Some formatted_date \<Rightarrow> formatted_date | None \<Rightarrow> date_str)"

text \<open>\<^verbatim>\<open>f"csv_{n}_{int(datetime.now().timestamp())}"\<close>.\<close>

definition csv_id :: "nat \<Rightarrow> int \<Rightarrow> string" where
  "csv_id n stamp = ''csv_'' @ str_nat n @ ''_'' @ str_int stamp"

text \<open>The row of a record, once its amount and its transaction id are known.\<close>

definition make_row :: "env \<Rightarrow> raw_record \<Rightarrow> rat \<Rightarrow> string \<Rightarrow> sheet_row" where
  "make_row E transaction amount transaction_id =
     (let description = dict_get transaction ''Description'' '''';
          merchant = dict_get transaction ''Merchant'' ''''
      in \<lparr> row_date = format_date E transaction,
           row_description = description,
           row_amount = amount,
           row_category = categorize_transaction (categories_values E) description merchant,
           row_account = dict_get transaction ''Account'' ''Unknown'',
           row_transaction_id = transaction_id,
           row_pending = dict_get transaction ''Pending'' ''No'',
           row_merchant = merchant \<rparr>)"

text \<open>
  \<^verbatim>\<open>existing_transaction_ids = transactions_worksheet.col_values(6)[1:]\<close>, and the empty
  list when the call raises. The column is read as it was written, one cell a row.
\<close>

definition existing_transaction_ids :: "env \<Rightarrow> world \<Rightarrow> string list" where
  "existing_transaction_ids E w =
     (if col_values_ok E then map row_transaction_id (transactions w) else [])"

section \<open>\<^verbatim>\<open>FinancialTracker.import_csv_transactions\<close>\<close>

text \<open>
  The loop over the records, with \<^verbatim>\<open>new_rows\<close> and the world as its state. An exception
  leaves the loop with the state reached: the rows appended so far stay in the sheet.
  The clock is read only for a record whose id is empty or absent.
\<close>

fun import_rows ::
  "env \<Rightarrow> string list \<Rightarrow> raw_record list \<Rightarrow> nat \<Rightarrow> world \<Rightarrow> error option \<times> nat \<times> world" where
  "import_rows E existing [] new_rows w = (None, new_rows, w)"
| "import_rows E existing (transaction # rest) new_rows w =
     (let transaction_id = dict_get transaction ''TransactionID'' '''' in
      if transaction_id \<in> set existing then import_rows E existing rest new_rows w
      else
        (case parse_amount E transaction of
           None \<Rightarrow> (Some ValueError, new_rows, w)
         | Some amount \<Rightarrow>
             let w1 = (if transaction_id \<noteq> [] then w
                       else w\<lparr>clock_reads := Suc (clock_reads w)\<rparr>);
                 row = make_row E transaction amount
                         (if transaction_id \<noteq> [] then transaction_id
                          else csv_id new_rows (now E (clock_reads w)));
                 w2 = w1\<lparr>write_calls := Suc (write_calls w1)\<rparr>
             in if write_ok E (write_calls w1)
                then import_rows E existing rest (Suc new_rows)
                       (w2\<lparr>transactions := transactions w2 @ [row]\<rparr>)
                else (Some APIError, new_rows, w2)))"

text \<open>
  The whole call: the number it returns and the world it leaves. Every exception is
  caught by the outer \<^verbatim>\<open>except Exception\<close>, which prints it and returns 0.
\<close>

definition import_csv_transactions :: "env \<Rightarrow> world \<Rightarrow> raw_record list \<Rightarrow> nat \<times> world" where
  "import_csv_transactions E w csv_rows =
     (case import_rows E (existing_transaction_ids E w) csv_rows 0 w of
        (Some e, new_rows, w') \<Rightarrow> (0, w')
      | (None, new_rows, w') \<Rightarrow>
          (if new_rows > 0 \<and> \<not> dashboard_ok E then 0 else new_rows, w'))"

section \<open>\<^verbatim>\<open>import_with_batching\<close>\<close>

text \<open>
  \<^verbatim>\<open>[t for t in transactions if t.get('TransactionID', '') not in existing_transaction_ids]\<close>.
\<close>

definition new_transactions :: "string list \<Rightarrow> raw_record list \<Rightarrow> raw_record list" where
  "new_transactions existing csv_rows =
     filter (\<lambda>t. dict_get t ''TransactionID'' '''' \<notin> set existing) csv_rows"

text \<open>
  \<^verbatim>\<open>range(0, n, step)\<close> for a positive step, and the slice \<^verbatim>\<open>xs[i:j]\<close> for
  \<open>0 \<le> i \<le> j\<close>.
\<close>

definition range_step :: "nat \<Rightarrow> nat \<Rightarrow> nat list" where
  "range_step n step = map (\<lambda>k. k * step) [0 ..< (n + step - 1) div step]"

definition slice :: "'a list \<Rightarrow> nat \<Rightarrow> nat \<Rightarrow> 'a list" where
  "slice xs i j = take (j - i) (drop i xs)"

text \<open>
  \<^verbatim>\<open>[xs[i:i+batch_size] for i in range(0, len(xs), batch_size)]\<close>, for a positive
  \<^verbatim>\<open>batch_size\<close>.
\<close>

definition batches :: "nat \<Rightarrow> 'a list \<Rightarrow> 'a list list" where
  "batches batch_size xs = map (\<lambda>i. slice xs i (i + batch_size)) (range_step (length xs) batch_size)"

text \<open>
  The inner loop, which prepares the rows of batch \<open>i\<close>. The default of
  \<^verbatim>\<open>transaction.get('TransactionID', f"csv_{i}_{...}")\<close> is evaluated for every record,
  so the clock is read once a record; the default is used only when the field is
  absent. A \<^verbatim>\<open>ValueError\<close> of the amount leaves the loop.
\<close>

fun prepare_rows :: "env \<Rightarrow> nat \<Rightarrow> raw_record list \<Rightarrow> world \<Rightarrow> (error + sheet_row list) \<times> world" where
  "prepare_rows E i [] w = (Inr [], w)"
| "prepare_rows E i (transaction # batch) w =
     (case parse_amount E transaction of
        None \<Rightarrow> (Inl ValueError, w)
      | Some amount \<Rightarrow>
          let transaction_id =
                dict_get transaction ''TransactionID'' (csv_id i (now E (clock_reads w)));
              row = make_row E transaction amount transaction_id
          in (case prepare_rows E i batch (w\<lparr>clock_reads := Suc (clock_reads w)\<rparr>) of
                (Inl e, w') \<Rightarrow> (Inl e, w')
              | (Inr rows_to_add, w') \<Rightarrow> (Inr (row # rows_to_add), w')))"

text \<open>
  The loop over \<^verbatim>\<open>enumerate(batches)\<close>, with \<open>n = len(batches)\<close> and
  \<^verbatim>\<open>total_imported\<close>. The rows are prepared outside the \<^verbatim>\<open>try\<close>: an exception there
  ends the run. Inside the \<^verbatim>\<open>try\<close>, a write that raises skips the rest of the block,
  the delay included; the handler prints the error and the loop goes on.
\<close>

fun process_batches ::
  "env \<Rightarrow> nat \<Rightarrow> nat \<Rightarrow> raw_record list list \<Rightarrow> nat \<Rightarrow> world \<Rightarrow> error option \<times> nat \<times> world" where
  "process_batches E n i [] total_imported w = (None, total_imported, w)"
| "process_batches E n i (batch # rest) total_imported w =
     (case prepare_rows E i batch w of
        (Inl e, w1) \<Rightarrow> (Some e, total_imported, w1)
      | (Inr rows_to_add, w1) \<Rightarrow>
          if rows_to_add \<noteq> [] \<and> \<not> write_ok E (write_calls w1)
          then process_batches E n (Suc i) rest total_imported
                 (w1\<lparr>write_calls := Suc (write_calls w1),
                     trace := trace w1 @ [Write rows_to_add False]\<rparr>)
          else
            let w2 = (if rows_to_add \<noteq> []
                      then w1\<lparr>transactions := transactions w1 @ rows_to_add,
                              write_calls := Suc (write_calls w1),
                              trace := trace w1 @ [Write rows_to_add True]\<rparr>
                      else w1);
                w3 = (if Suc i < n then w2\<lparr>trace := trace w2 @ [Sleep]\<rparr> else w2)
            in process_batches E n (Suc i) rest (total_imported + length rows_to_add) w3)"

text \<open>
  The call, from the records read from the file on. \<open>Inr True\<close> is \<^verbatim>\<open>return True\<close>,
  \<open>Inl e\<close> an exception that leaves the function. \<^verbatim>\<open>range\<close> raises \<^verbatim>\<open>ValueError\<close> for a
  zero step and is empty for a negative one. The dashboard update at the end is inside
  a \<^verbatim>\<open>try\<close> of its own and does not touch the Transactions worksheet.
\<close>

definition import_with_batching ::
  "env \<Rightarrow> world \<Rightarrow> raw_record list \<Rightarrow> int \<Rightarrow> (error + bool) \<times> world" where
  "import_with_batching E w csv_rows batch_size =
     (let new = new_transactions (existing_transaction_ids E w) csv_rows in
      if new = [] then (Inr True, w)
      else if batch_size = 0 then (Inl ValueError, w)
      else
        let bs = (if batch_size < 0 then [] else batches (nat batch_size) new) in
        case process_batches E (length bs) 0 bs 0 w of
          (Some e, total_imported, w') \<Rightarrow> (Inl e, w')
        | (None, total_imported, w') \<Rightarrow> (Inr True, w'))"

section \<open>The batched writes of \<^verbatim>\<open>update_dashboard\<close>\<close>

text \<open>
  The Dashboard worksheet: its cells, the number of write calls so far, and the trace.
  \<open>'v\<close> is what a cell is given: a string or a grid of values.
\<close>

record 'v dashboard =
  cells :: "string \<rightharpoonup> 'v"
  batch_calls :: nat
  dash_trace :: "(string \<times> 'v) list event list"

text \<open>
  \<^verbatim>\<open>batch_data = {}\<close>, then \<^verbatim>\<open>batch_data[cell] = value\<close> for each pair of the batch.
\<close>

definition batch_data :: "(string \<times> 'v) list \<Rightarrow> (string \<rightharpoonup> 'v)" where
  "batch_data batch = foldl (\<lambda>m (cell, v). m(cell \<mapsto> v)) Map.empty batch"

text \<open>
  The loop over \<^verbatim>\<open>enumerate(update_batches)\<close> of the branch \<^verbatim>\<open>if batch_updates\<close>.
  \<open>ok k\<close> says whether the \<open>k\<close>-th call of \<^verbatim>\<open>batch_update\<close> returns. Nothing catches
  its exception here: it leaves the loop and \<^verbatim>\<open>update_dashboard\<close>.
\<close>

fun run_update_batches ::
  "(nat \<Rightarrow> bool) \<Rightarrow> rat \<Rightarrow> nat \<Rightarrow> nat \<Rightarrow> (string \<times> 'v) list list \<Rightarrow> 'v dashboard
     \<Rightarrow> error option \<times> 'v dashboard" where
  "run_update_batches ok delay_seconds n i [] d = (None, d)"
| "run_update_batches ok delay_seconds n i (batch # rest) d =
     (if \<not> ok (batch_calls d)
      then (Some APIError,
            d\<lparr>batch_calls := Suc (batch_calls d),
              dash_trace := dash_trace d @ [Write batch False]\<rparr>)
      else
        let d1 = d\<lparr>cells := cells d ++ batch_data batch,
                   batch_calls := Suc (batch_calls d),
                   dash_trace := dash_trace d @ [Write batch True]\<rparr>;
            d2 = (if Suc i < n \<and> delay_seconds > 0
                  then d1\<lparr>dash_trace := dash_trace d1 @ [Sleep]\<rparr> else d1)
        in run_update_batches ok delay_seconds n (Suc i) rest d2)"

text \<open>
  \<^verbatim>\<open>batch_size = 10\<close>, \<^verbatim>\<open>update_batches = [all_updates[i:i+batch_size] for i in ...]\<close> and
  the loop; the computation of \<^verbatim>\<open>all_updates\<close> before and the formats after are not
  part of the model.
\<close>

definition update_batches :: "(string \<times> 'v) list \<Rightarrow> (string \<times> 'v) list list" where
  "update_batches all_updates = batches 10 all_updates"

definition apply_all_updates ::
  "(nat \<Rightarrow> bool) \<Rightarrow> rat \<Rightarrow> (string \<times> 'v) list \<Rightarrow> 'v dashboard \<Rightarrow> error option \<times> 'v dashboard" where
  "apply_all_updates ok delay_seconds all_updates d =
     run_update_batches ok delay_seconds (length (update_batches all_updates)) 0
       (update_batches all_updates) d"

section \<open>A concrete outside world for the examples\<close>

text \<open>
  The decimal literals \<^verbatim>\<open>[sign] digits [. digits]\<close> with their exact value. Python's
  \<^verbatim>\<open>float\<close> reads these and more (exponents, \<^verbatim>\<open>inf\<close>, \<^verbatim>\<open>nan\<close>, surrounding white
  space, underscores); the examples use only strings on which the two agree, and the
  theorems are about any \<open>to_float\<close>.
\<close>

definition plain_decimal :: "string \<Rightarrow> rat option" where
  "plain_decimal s =
     (let (negative, body) =
            (case s of
               c # r \<Rightarrow> if c = CHR ''-'' then (True, r) else if c = CHR ''+'' then (False, r)
                          else (False, s)
             | [] \<Rightarrow> (False, s));
          int_part = takeWhile is_digit body;
          rest = dropWhile is_digit body;
          frac_part = (case rest of
                         [] \<Rightarrow> Some []
                       | c # f \<Rightarrow> if c = CHR ''.'' \<and> list_all is_digit f then Some f else None)
      in case frac_part of
           None \<Rightarrow> None
         | Some f \<Rightarrow>
             if int_part = [] \<and> f = [] then None
             else
               let v = (of_int (digits_value int_part) :: rat)
                         + of_int (digits_value f) / 10 ^ length f
               in Some (if negative then - v else v))"

text \<open>
  Dates of the shape \<^verbatim>\<open>dddd-dd-dd\<close> are returned as they are, as \<^verbatim>\<open>strptime\<close> with
  \<^verbatim>\<open>"%Y-%m-%d"\<close> followed by \<^verbatim>\<open>strftime\<close> does for a date of the calendar; the
  examples use no other.
\<close>

definition iso_date :: "string \<Rightarrow> string option" where
  "iso_date s =
     (if length s = 10 \<and> list_all is_digit (take 4 s) \<and> s ! 4 = CHR ''-''
         \<and> list_all is_digit (take 2 (drop 5 s)) \<and> s ! 7 = CHR ''-''
         \<and> list_all is_digit (drop 8 s)
      then Some s else None)"

text \<open>
  A world where every call to the sheets succeeds, the Categories worksheet cannot be
  read (so that the built-in table is used) and the clock stands at one second.
\<close>

definition calm :: env where
  "calm = \<lparr> to_float = plain_decimal, strptime = iso_date, now = (\<lambda>n. 1700000000),
            categories_values = None, col_values_ok = True, write_ok = (\<lambda>n. True),
            dashboard_ok = True \<rparr>"

definition empty_sheet :: world where
  "empty_sheet = \<lparr> transactions = [], clock_reads = 0, write_calls = 0, trace = [] \<rparr>"

text \<open>
  Three records: the example row of the specification; a dividend without a
  TransactionID column; and a record whose amount is no number, with the dollar sign and
  the commas stripped or not.
\<close>

definition apple_purchase :: raw_record where
  "apple_purchase =
     [''Date'' \<mapsto> ''2025-01-15'', ''Description'' \<mapsto> ''Purchase of Apple (AAPL)'',
      ''Amount'' \<mapsto> ''-1200.00'', ''Account'' \<mapsto> ''Brokerage'', ''Merchant'' \<mapsto> ''Apple'',
      ''TransactionID'' \<mapsto> ''tx_1'', ''Pending'' \<mapsto> ''No'']"

definition dividend_no_id :: raw_record where
  "dividend_no_id =
     [''Date'' \<mapsto> ''2025-02-03'', ''Description'' \<mapsto> ''Dividend (AAPL)'',
      ''Amount'' \<mapsto> ''$1,250.50'', ''Account'' \<mapsto> ''Brokerage'', ''Merchant'' \<mapsto> ''Apple'',
      ''Pending'' \<mapsto> ''No'']"


definition payout_no_id :: raw_record where
  "payout_no_id =
     [''Date'' \<mapsto> ''2025-02-03'', ''Description'' \<mapsto> ''Quarterly payout (MSFT)'',
      ''Amount'' \<mapsto> ''310.25'', ''Account'' \<mapsto> ''Brokerage'', ''Merchant'' \<mapsto> ''Microsoft'',
      ''Pending'' \<mapsto> ''No'']"

text \<open>Twelve updates of the dashboard, two batches of the scheduler, and an empty dashboard.\<close>

definition twelve_updates :: "(string \<times> string) list" where
  "twelve_updates = map (\<lambda>i. (''A'' @ str_int i, ''value'')) [1 ..< 13]"

definition blank_dashboard :: "string dashboard" where
  "blank_dashboard = \<lparr> cells = Map.empty, batch_calls = 0, dash_trace = [] \<rparr>"

section \<open>The pacing of the groups, as the specification words it\<close>

text \<open>
  What the scheduler does with one group: the write call, and after a write that
  returned the pacing delay, unless the group is the last one. After a write that
  raised there is no delay.
\<close>

definition group_events :: "bool \<Rightarrow> bool \<Rightarrow> 'g \<Rightarrow> 'g event list" where
  "group_events ok is_last g =
     (if ok then Write g True # (if is_last then [] else [Sleep]) else [Write g False])"

text \<open>The claim's wording: the delay follows every group but the last.\<close>

definition group_events_claimed :: "bool \<Rightarrow> bool \<Rightarrow> 'g \<Rightarrow> 'g event list" where
  "group_events_claimed ok is_last g = Write g ok # (if is_last then [] else [Sleep])"

section \<open>The aggregation of the visualizer and of the dashboard\<close>













text \<open>
  A pivot table: its index, its columns and its rows of cells, one row an index entry
  and one cell a column. A cell without a value (\<^verbatim>\<open>NaN\<close>) is \<open>None\<close>.
\<close>

record 'v table =
  index :: "string list"
  columns :: "string list"
  data :: "'v list list"






text \<open>The cell of a table at an index entry and a column, if the table has it.\<close>

definition cell :: "'v table \<Rightarrow> string \<Rightarrow> string \<Rightarrow> 'v option" where
  "cell t m c =
     (case map_of (zip (index t) (data t)) m of
        None \<Rightarrow> None
      | Some row \<Rightarrow> map_of (zip (columns t) row) c)"



section \<open>Lemmas about the string operations\<close>




section \<open>The sign-aware classifier: its labels\<close>

lemma identify_transaction_type_in_types:
  "identify_transaction_type d a \<in> transaction_types"
  by (simp add: identify_transaction_type_def transaction_types_def Let_def)

lemma identify_transaction_type_examples:
  "identify_transaction_type ''Initial fund capital'' 5 = ''Initial Capital''"
  "identify_transaction_type ''Purchase of Apple (AAPL)'' (- 1200) = ''Buy''"
  "identify_transaction_type ''Sell Apple (AAPL)'' 1300 = ''Sell''"
  "identify_transaction_type ''Dividend (AAPL)'' 12 = ''Dividend''"
  "identify_transaction_type ''Management fee'' (- 3) = ''Fee''"
  "identify_transaction_type ''Transfer'' 1 = ''Other''"
  by code_simp+

lemma transaction_types_attained:
  "transaction_types \<subseteq> range (\<lambda>(d, a). identify_transaction_type d a)"
  unfolding transaction_types_def
  using identify_transaction_type_examples by (auto simp: image_iff) (metis)+

text \<open>
  C10. For every description and amount, \<open>identify_transaction_type\<close> returns one of
  exactly the six labels Initial Capital, Buy, Sell, Dividend, Fee, Other (each of them
  is returned for some row). Whenever the lower-cased description contains
  "initial fund capital" the result is Initial Capital, whatever the amount; that label
  is not one of the seven categories; and the result is never Income nor Capital.
\<close>

theorem identify_transaction_type_labels:
  "range (\<lambda>(d, a). identify_transaction_type d a) = transaction_types
   \<and> (str_in ''initial fund capital'' (lower description) \<longrightarrow>
        identify_transaction_type description amount = ''Initial Capital'')
   \<and> ''Initial Capital'' \<notin> seven_categories
   \<and> identify_transaction_type description amount \<noteq> ''Income''
   \<and> identify_transaction_type description amount \<noteq> ''Capital''"
proof -
  have "range (\<lambda>(d, a). identify_transaction_type d a) \<subseteq> transaction_types"
    using identify_transaction_type_in_types by auto
  then have "range (\<lambda>(d, a). identify_transaction_type d a) = transaction_types"
    using transaction_types_attained by blast
  moreover have "str_in ''initial fund capital'' (lower description) \<longrightarrow>
        identify_transaction_type description amount = ''Initial Capital''"
    by (simp add: identify_transaction_type_def Let_def)
  moreover have "''Initial Capital'' \<notin> seven_categories"
    by (simp add: seven_categories_def)
  moreover have "identify_transaction_type description amount \<noteq> ''Income''"
    and "identify_transaction_type description amount \<noteq> ''Capital''"
    using identify_transaction_type_in_types [of description amount]
    by (auto simp: transaction_types_def)
  ultimately show ?thesis by blast
qed

text \<open>
  A withdrawal of 5000 described as "Initial Fund Capital deployment, management fee":
  negative, and a fee by its words, yet labelled Initial Capital.
\<close>

theorem identify_transaction_type_labels_witness:
  "str_in ''initial fund capital'' (lower ''Initial Fund Capital deployment, management fee'')
   \<and> identify_transaction_type ''Initial Fund Capital deployment, management fee'' (- 5000)
       = ''Initial Capital''"
proof -
  have h: "str_in ''initial fund capital''
             (lower ''Initial Fund Capital deployment, management fee'')"
    by code_simp
  with identify_transaction_type_labels
         [of "''Initial Fund Capital deployment, management fee''" "- 5000"]
  show ?thesis by blast
qed

section \<open>The keyword classifier: first match, and the range of its categories\<close>


















lemma scan_rows_category:
  "scan_rows rows d m = Some c \<Longrightarrow> \<exists>row\<in>set rows. 2 \<le> length row \<and> c = row ! 0"
  by (induction rows) (auto split: if_splits)

lemma scan_defaults_category:
  "scan_defaults items d m = Some c \<Longrightarrow> c \<in> fst ` set items"
  by (induction items) (auto split: if_splits)

lemma categories_seven: "fst ` set categories \<subseteq> seven_categories"
  by (simp add: categories_def seven_categories_def)

text \<open>
  C7, as the claim words it, fails when the Categories worksheet names a category of
  its own: the classifier returns the first cell of the matching row as it is.
\<close>

theorem categorize_transaction_custom_category_counterexample:
  "categorize_transaction (Some [[''Category'', ''Keywords''], [''Crypto'', ''bitcoin, ether'']])
      ''Bought Bitcoin'' '''' \<notin> seven_categories"
proof -
  have "categorize_transaction
          (Some [[''Category'', ''Keywords''], [''Crypto'', ''bitcoin, ether'']])
          ''Bought Bitcoin'' '''' = ''Crypto''"
    by code_simp
  then show ?thesis by (simp add: seven_categories_def)
qed

text \<open>
  C7, amended. The assigned category is one of the seven values Buy, Sell, Dividend, Fee,
  Capital, Income, Other whenever every entry of the Categories worksheet names one of
  them, and always when the worksheet cannot be read and the built-in table is used.
\<close>

theorem categorize_transaction_in_enumeration:
  "(\<forall>vals. worksheet_values = Some vals \<longrightarrow>
      (\<forall>row\<in>set (drop 1 vals). 2 \<le> length row \<longrightarrow> row ! 0 \<in> seven_categories))
   \<Longrightarrow> categorize_transaction worksheet_values description merchant_name \<in> seven_categories"
proof (cases worksheet_values)
  case None
  have "c \<in> seven_categories"
    if "scan_defaults categories (lower description) (lower merchant_name) = Some c" for c
    using scan_defaults_category [OF that] categories_seven by auto
  moreover have "''Income'' \<in> seven_categories" "''Other'' \<in> seven_categories"
    by (simp_all add: seven_categories_def)
  ultimately show ?thesis
    using None by (simp add: categorize_transaction_def Let_def split: option.splits)
next
  case (Some rows)
  assume h: "\<forall>vals. worksheet_values = Some vals \<longrightarrow>
      (\<forall>row\<in>set (drop 1 vals). 2 \<le> length row \<longrightarrow> row ! 0 \<in> seven_categories)"
  have "c \<in> seven_categories"
    if "scan_rows (drop 1 rows) (lower description) (lower merchant_name) = Some c" for c
    using scan_rows_category [OF that] h Some by auto
  moreover have "''Income'' \<in> seven_categories" "''Other'' \<in> seven_categories"
    by (simp_all add: seven_categories_def)
  ultimately show ?thesis
    using Some by (simp add: categorize_transaction_def Let_def split: option.splits)
qed

theorem categorize_transaction_in_enumeration_witness:
  "list_all (\<lambda>row. row ! 0 \<in> seven_categories)
     (drop 1 [[''Category'', ''Keywords''], [''Buy'', ''Purchase, Accumulate''],
              [''Other'', '''']])
   \<and> categorize_transaction
        (Some [[''Category'', ''Keywords''], [''Buy'', ''Purchase, Accumulate''],
               [''Other'', '''']])
        ''Purchase of Apple (AAPL)'' ''Apple'' \<in> seven_categories"
  using categorize_transaction_in_enumeration
    [of "Some [[''Category'', ''Keywords''], [''Buy'', ''Purchase, Accumulate''],
               [''Other'', '''']]"
        "''Purchase of Apple (AAPL)''" "''Apple''"]
  by (simp add: seven_categories_def)

section \<open>The partition into batches\<close>

lemma range_step_Suc:
  assumes "0 < bs" "0 < n"
  shows "range_step n bs = 0 # map (\<lambda>i. i + bs) (range_step (n - bs) bs)"
proof -
  obtain m where m: "n = Suc m" using assms by (cases n) auto
  have l: "(n + bs - 1) div bs = Suc (m div bs)"
    using assms by (simp add: m)
  have r: "(n - bs + bs - 1) div bs = m div bs"
  proof (cases "n \<le> bs")
    case True
    then show ?thesis using assms by (simp add: m)
  next
    case False
    then have "n - bs + bs - 1 = m" by (simp add: m)
    then show ?thesis by simp
  qed
  have k: "(n + bs - 1) div bs = Suc ((n - bs + bs - 1) div bs)"
    using l r by simp
  show ?thesis
    unfolding range_step_def k
    by (simp add: upt_rec [of 0] map_Suc_upt [symmetric] del: upt_Suc)
qed

lemma batches_rec:
  assumes "0 < bs"
  shows "batches bs xs = (if xs = [] then [] else take bs xs # batches bs (drop bs xs))"
proof (cases "xs = []")
  case True
  then show ?thesis using assms by (simp add: batches_def range_step_def)
next
  case False
  then have n: "0 < length xs" by simp
  show ?thesis
    using False
    by (simp add: batches_def range_step_Suc [OF assms n] slice_def o_def add.commute)
qed




lemma concat_batches:
  assumes "0 < bs"
  shows "concat (batches bs xs) = xs"
proof (induction "length xs" arbitrary: xs rule: less_induct)
  case less
  show ?case
  proof (cases "xs = []")
    case True
    then show ?thesis by (simp add: batches_rec [OF assms])
  next
    case False
    then have "length (drop bs xs) < length xs" using assms by simp
    then have "concat (batches bs (drop bs xs)) = drop bs xs" by (rule less)
    then show ?thesis using False batches_rec [OF assms, of xs] by simp
  qed
qed

lemma batches_sizes:
  assumes "0 < bs"
  shows "(\<forall>g\<in>set (batches bs xs). 0 < length g \<and> length g \<le> bs)
         \<and> (\<forall>g\<in>set (butlast (batches bs xs)). length g = bs)"
proof (induction "length xs" arbitrary: xs rule: less_induct)
  case less
  show ?case
  proof (cases "xs = []")
    case True
    then show ?thesis by (simp add: batches_rec [OF assms])
  next
    case False
    then have "length (drop bs xs) < length xs" using assms by simp
    then have ih: "(\<forall>g\<in>set (batches bs (drop bs xs)). 0 < length g \<and> length g \<le> bs)
         \<and> (\<forall>g\<in>set (butlast (batches bs (drop bs xs))). length g = bs)" by (rule less)
    have e: "batches bs xs = take bs xs # batches bs (drop bs xs)"
      using False batches_rec [OF assms, of xs] by simp
    have ne: "bs < length xs" if B: "batches bs (drop bs xs) \<noteq> []"
    proof (rule ccontr)
      assume "\<not> bs < length xs"
      then have "batches bs (drop bs xs) = []"
        using assms by (simp add: batches_def range_step_def)
      then show False using B by simp
    qed
    have t: "0 < length (take bs xs)" "length (take bs xs) \<le> bs"
      using False assms by auto
    have 1: "\<forall>g\<in>set (batches bs xs). 0 < length g \<and> length g \<le> bs"
    proof
      fix g assume "g \<in> set (batches bs xs)"
      then have "g = take bs xs \<or> g \<in> set (batches bs (drop bs xs))"
        by (subst (asm) e) simp
      then show "0 < length g \<and> length g \<le> bs"
      proof
        assume "g = take bs xs"
        then show ?thesis using t by simp
      next
        assume "g \<in> set (batches bs (drop bs xs))"
        then show ?thesis by (rule ih [THEN conjunct1, rule_format])
      qed
    qed
    have 2: "\<forall>g\<in>set (butlast (batches bs xs)). length g = bs"
    proof
      fix g assume g: "g \<in> set (butlast (batches bs xs))"
      show "length g = bs"
      proof (cases "batches bs (drop bs xs) = []")
        case True
        then have "butlast (batches bs xs) = []" by (subst e) simp
        then show ?thesis using g by simp
      next
        case B: False
        then have l: "length (take bs xs) = bs" using ne by simp
        have "butlast (batches bs xs) = take bs xs # butlast (batches bs (drop bs xs))"
          using B by (subst e) simp
        then have "g = take bs xs \<or> g \<in> set (butlast (batches bs (drop bs xs)))"
          using g by simp
        then show ?thesis
        proof
          assume "g = take bs xs"
          then show ?thesis using l by simp
        next
          assume "g \<in> set (butlast (batches bs (drop bs xs)))"
          then show ?thesis by (rule ih [THEN conjunct2, rule_format])
        qed
      qed
    qed
    show ?thesis using 1 2 by blast
  qed
qed

lemma length_batches: "length (batches bs xs) = (length xs + bs - 1) div bs"
  by (simp add: batches_def range_step_def)

lemma batches_23:
  assumes "length xs = 23"
  shows "map length (batches 10 xs) = [10, 10, 3]"
proof -
  have 1: "batches 10 xs = take 10 xs # batches 10 (drop 10 xs)"
    using assms batches_rec [of 10 xs] by auto
  have 2: "batches 10 (drop 10 xs) = take 10 (drop 10 xs) # batches 10 (drop 20 xs)"
    using assms batches_rec [of 10 "drop 10 xs"] by auto
  have 4: "batches 10 (drop 30 xs) = []"
    using assms batches_rec [of 10 "drop 30 xs"] by auto
  have 3: "batches 10 (drop 20 xs) = [take 10 (drop 20 xs)]"
    using assms batches_rec [of 10 "drop 20 xs"] 4 by auto
  show ?thesis by (subst 1, subst 2, subst 3) (use assms in simp)
qed

section \<open>The loops of the two imports and of the dashboard\<close>




lemma prepare_rows_good:
  "\<forall>t\<in>set batch. parse_amount E t \<noteq> None \<Longrightarrow>
     \<exists>rows. prepare_rows E i batch w = (Inr rows, w\<lparr>clock_reads := clock_reads w + length batch\<rparr>)
       \<and> length rows = length batch
       \<and> map row_amount rows = map (\<lambda>t. the (parse_amount E t)) batch
       \<and> ((\<forall>t\<in>set batch. t ''TransactionID'' \<noteq> None) \<longrightarrow>
            map row_transaction_id rows = map (\<lambda>t. dict_get t ''TransactionID'' '''') batch)"
proof (induction batch arbitrary: w)
  case Nil
  then show ?case by simp
next
  case (Cons a batch)
  then obtain amount where a: "parse_amount E a = Some amount" by auto
  from Cons.prems have "\<forall>t\<in>set batch. parse_amount E t \<noteq> None" by simp
  from Cons.IH [OF this, of "w\<lparr>clock_reads := Suc (clock_reads w)\<rparr>"]
  obtain rows where r: "prepare_rows E i batch (w\<lparr>clock_reads := Suc (clock_reads w)\<rparr>)
       = (Inr rows, w\<lparr>clock_reads := Suc (clock_reads w + length batch)\<rparr>)"
     and l: "length rows = length batch"
     and am: "map row_amount rows = map (\<lambda>t. the (parse_amount E t)) batch"
     and ids: "(\<forall>t\<in>set batch. t ''TransactionID'' \<noteq> None) \<longrightarrow>
            map row_transaction_id rows = map (\<lambda>t. dict_get t ''TransactionID'' '''') batch"
    by auto
  let ?row = "make_row E a amount (dict_get a ''TransactionID'' (csv_id i (now E (clock_reads w))))"
  have 1: "prepare_rows E i (a # batch) w
        = (Inr (?row # rows), w\<lparr>clock_reads := clock_reads w + length (a # batch)\<rparr>)"
    using a r by (simp add: Let_def)
  have 2: "row_amount ?row = the (parse_amount E a)"
    using a by (simp add: make_row_def Let_def)
  have 3: "a ''TransactionID'' \<noteq> None \<Longrightarrow> row_transaction_id ?row = dict_get a ''TransactionID'' ''''"
    by (auto simp: make_row_def Let_def dict_get_def)
  show ?case
    apply (rule exI [of _ "?row # rows"])
    using 1 2 3 l am ids by simp
qed




lemma concat_map_upt_Suc:
  "concat (map f [0..<Suc m]) = f 0 @ concat (map (\<lambda>j. f (Suc j)) [0..<m])"
  by (simp only: map_upt_Suc concat.simps)

lemma process_batches_trace:
  "\<forall>b\<in>set bs. b \<noteq> [] \<and> (\<forall>t\<in>set b. parse_amount E t \<noteq> None) \<Longrightarrow> n = i + length bs \<Longrightarrow>
     \<exists>tot' w'. process_batches E n i bs tot w = (None, tot', w')
       \<and> map (map_event length) (trace w') =
           map (map_event length) (trace w)
             @ concat (map (\<lambda>j. group_events (write_ok E (write_calls w + j)) (Suc (i + j) = n)
                                  (length (bs ! j))) [0..<length bs])"
proof (induction bs arbitrary: i tot w)
  case Nil
  then show ?case by simp
next
  case (Cons b rest)
  from Cons.prems have g: "\<forall>t\<in>set b. parse_amount E t \<noteq> None" and ne: "b \<noteq> []" by auto
  from prepare_rows_good [OF g, of i w] obtain rows
    where p: "prepare_rows E i b w = (Inr rows, w\<lparr>clock_reads := clock_reads w + length b\<rparr>)"
      and l: "length rows = length b"
    by blast
  from l ne have rne: "rows \<noteq> []" by auto
  let ?w1 = "w\<lparr>clock_reads := clock_reads w + length b\<rparr>"
  from Cons.prems have rest: "\<forall>b\<in>set rest. b \<noteq> [] \<and> (\<forall>t\<in>set b. parse_amount E t \<noteq> None)"
    and n: "n = Suc i + length rest" by auto
  have last: "(Suc i = n) = (\<not> Suc i < n)" using n by auto
  show ?case
  proof (cases "write_ok E (write_calls w)")
    case False
    let ?w2 = "?w1\<lparr>write_calls := Suc (write_calls ?w1), trace := trace ?w1 @ [Write rows False]\<rparr>"
    have step: "process_batches E n i (b # rest) tot w = process_batches E n (Suc i) rest tot ?w2"
      using p rne False by simp
    from Cons.IH [OF rest n, of tot ?w2]
    obtain tot' w' where r: "process_batches E n (Suc i) rest tot ?w2 = (None, tot', w')"
      and t: "map (map_event length) (trace w') =
           map (map_event length) (trace ?w2)
             @ concat (map (\<lambda>j. group_events (write_ok E (write_calls ?w2 + j)) (Suc (Suc i + j) = n)
                                  (length (rest ! j))) [0..<length rest])"
      by blast
    have "map (map_event length) (trace w') =
           map (map_event length) (trace w)
             @ concat (map (\<lambda>j. group_events (write_ok E (write_calls w + j)) (Suc (i + j) = n)
                                  (length ((b # rest) ! j))) [0..<length (b # rest)])"
      unfolding t length_Cons concat_map_upt_Suc
      using False l by (simp add: group_events_def)
    with step r show ?thesis by simp
  next
    case True
    let ?w2 = "?w1\<lparr>transactions := transactions ?w1 @ rows,
                              write_calls := Suc (write_calls ?w1),
                              trace := trace ?w1 @ [Write rows True]\<rparr>"
    let ?w3 = "(if Suc i < n then ?w2\<lparr>trace := trace ?w2 @ [Sleep]\<rparr> else ?w2)"
    have step: "process_batches E n i (b # rest) tot w
          = process_batches E n (Suc i) rest (tot + length rows) ?w3"
      using p rne True by (simp add: Let_def)
    have wc: "write_calls ?w3 = Suc (write_calls w)" by simp
    have tr3: "map (map_event length) (trace ?w3)
        = map (map_event length) (trace w) @ group_events True (Suc i = n) (length b)"
      using l last by (simp add: group_events_def)
    from Cons.IH [OF rest n, of "tot + length rows" ?w3]
    obtain tot' w' where r: "process_batches E n (Suc i) rest (tot + length rows) ?w3 = (None, tot', w')"
      and t: "map (map_event length) (trace w') =
           map (map_event length) (trace ?w3)
             @ concat (map (\<lambda>j. group_events (write_ok E (write_calls ?w3 + j)) (Suc (Suc i + j) = n)
                                  (length (rest ! j))) [0..<length rest])"
      by blast
    have "map (map_event length) (trace w') =
           map (map_event length) (trace w)
             @ concat (map (\<lambda>j. group_events (write_ok E (write_calls w + j)) (Suc (i + j) = n)
                                  (length ((b # rest) ! j))) [0..<length (b # rest)])"
      unfolding t tr3 wc length_Cons concat_map_upt_Suc
      using True by simp
    with step r show ?thesis by simp
  qed
qed

lemma run_update_batches_all_ok:
  "\<forall>k. ok k \<Longrightarrow> 0 < delay_seconds \<Longrightarrow> n = i + length bs \<Longrightarrow>
     \<exists>d'. run_update_batches ok delay_seconds n i bs d = (None, d')
       \<and> dash_trace d' =
           dash_trace d @ concat (map (\<lambda>j. group_events True (Suc (i + j) = n) (bs ! j)) [0..<length bs])"
proof (induction bs arbitrary: i d)
  case Nil
  then show ?case by simp
next
  case (Cons b rest)
  let ?d1 = "d\<lparr>cells := cells d ++ batch_data b,
                   batch_calls := Suc (batch_calls d),
                   dash_trace := dash_trace d @ [Write b True]\<rparr>"
  let ?d2 = "(if Suc i < n \<and> delay_seconds > 0
                  then ?d1\<lparr>dash_trace := dash_trace ?d1 @ [Sleep]\<rparr> else ?d1)"
  from Cons.prems have n: "n = Suc i + length rest" by simp
  have last: "(Suc i = n) = (\<not> Suc i < n)" using n by auto
  have step: "run_update_batches ok delay_seconds n i (b # rest) d
        = run_update_batches ok delay_seconds n (Suc i) rest ?d2"
    using Cons.prems(1) by (simp add: Let_def)
  have tr2: "dash_trace ?d2 = dash_trace d @ group_events True (Suc i = n) b"
    using Cons.prems(2) last by (simp add: group_events_def)
  from Cons.IH [OF Cons.prems(1) Cons.prems(2) n, of ?d2]
  obtain d' where r: "run_update_batches ok delay_seconds n (Suc i) rest ?d2 = (None, d')"
    and t: "dash_trace d' = dash_trace ?d2
        @ concat (map (\<lambda>j. group_events True (Suc (Suc i + j) = n) (rest ! j)) [0..<length rest])"
    by blast
  have "dash_trace d' =
           dash_trace d @ concat (map (\<lambda>j. group_events True (Suc (i + j) = n) ((b # rest) ! j))
                                    [0..<length (b # rest)])"
    unfolding t tr2 length_Cons concat_map_upt_Suc by simp
  with step r show ?case by simp
qed

lemma run_update_batches_failure:
  "\<not> ok (batch_calls d) \<Longrightarrow>
     run_update_batches ok delay_seconds n i (batch # rest) d =
       (Some APIError, d\<lparr>batch_calls := Suc (batch_calls d),
                         dash_trace := dash_trace d @ [Write batch False]\<rparr>)"
  by simp





section \<open>The batch scheduler: groups and pacing\<close>

lemma batches_Nil: "0 < bs \<Longrightarrow> batches bs [] = []"
  by (simp add: batches_rec)

lemma in_batches_in_list:
  assumes "0 < bs" "b \<in> set (batches bs xs)" "t \<in> set b"
  shows "t \<in> set xs"
proof -
  from assms(2,3) have "t \<in> set (concat (batches bs xs))" by auto
  then show ?thesis by (simp only: concat_batches [OF assms(1)])
qed

lemma import_with_batching_trace:
  assumes bs: "0 < batch_size"
    and good: "\<forall>t\<in>set (new_transactions (existing_transaction_ids E w) csv_rows). parse_amount E t \<noteq> None"
  shows "\<exists>w'. import_with_batching E w csv_rows batch_size = (Inr True, w')
       \<and> map (map_event length) (trace w') =
           map (map_event length) (trace w)
             @ concat (map (\<lambda>j. group_events (write_ok E (write_calls w + j))
                 (Suc j = length (batches (nat batch_size) (new_transactions (existing_transaction_ids E w) csv_rows)))
                 (length (batches (nat batch_size) (new_transactions (existing_transaction_ids E w) csv_rows) ! j)))
               [0..<length (batches (nat batch_size) (new_transactions (existing_transaction_ids E w) csv_rows))])"
proof -
  let ?new = "new_transactions (existing_transaction_ids E w) csv_rows"
  let ?groups = "batches (nat batch_size) ?new"
  from bs have nb: "0 < nat batch_size" by simp
  show ?thesis
  proof (cases "?new = []")
    case True
    then show ?thesis using nb by (simp add: import_with_batching_def batches_Nil)
  next
    case False
    have pre: "\<forall>b\<in>set ?groups. b \<noteq> [] \<and> (\<forall>t\<in>set b. parse_amount E t \<noteq> None)"
    proof
      fix b assume b: "b \<in> set ?groups"
      with batches_sizes [OF nb, of ?new] have "0 < length b" by blast
      moreover have "\<forall>t\<in>set b. parse_amount E t \<noteq> None"
        using in_batches_in_list [OF nb b] good by blast
      ultimately show "b \<noteq> [] \<and> (\<forall>t\<in>set b. parse_amount E t \<noteq> None)" by auto
    qed
    from process_batches_trace [OF pre, of "length ?groups" 0 0 w]
    obtain tot' w' where r: "process_batches E (length ?groups) 0 ?groups 0 w = (None, tot', w')"
      and t: "map (map_event length) (trace w') =
           map (map_event length) (trace w)
             @ concat (map (\<lambda>j. group_events (write_ok E (write_calls w + j)) (Suc (0 + j) = length ?groups)
                                  (length (?groups ! j))) [0..<length ?groups])"
      by auto
    have "import_with_batching E w csv_rows batch_size = (Inr True, w')"
      using False bs r by (simp add: import_with_batching_def Let_def)
    with t show ?thesis by simp
  qed
qed

lemma apply_all_updates_trace:
  assumes "\<forall>k. ok k" "0 < delay_seconds"
  shows "\<exists>d'. apply_all_updates ok delay_seconds all_updates d = (None, d')
       \<and> dash_trace d' =
           dash_trace d @ concat (map (\<lambda>j. group_events True (Suc j = length (update_batches all_updates))
                                         (update_batches all_updates ! j))
                                    [0..<length (update_batches all_updates)])"
  using run_update_batches_all_ok [OF assms, of "length (update_batches all_updates)" 0 "update_batches all_updates" d]
  by (simp add: apply_all_updates_def)

text \<open>
  C6, as the claim words it, fails when a write raises: \<^verbatim>\<open>time.sleep(delay)\<close> stands
  inside the \<^verbatim>\<open>try\<close>, after the write. Two records in batches of one, the first
  write failing: the second write follows with no delay between, where the claim has
  one after every group but the last.
\<close>

theorem no_delay_after_failed_group_counterexample:
  "map (map_event length)
     (trace (snd (import_with_batching (calm\<lparr>write_ok := (\<lambda>k. 0 < k)\<rparr>) empty_sheet
                    [apple_purchase, dividend_no_id] 1)))
     = [Write 1 False, Write 1 True]
   \<and> concat (map (\<lambda>j. group_events_claimed (0 < j) (Suc j = 2) (1::nat)) [0..<2])
     = [Write 1 False, Sleep, Write 1 True]"
  by code_simp

text \<open>
  C6, amended. For every list and every positive batch size the scheduler cuts the list
  into consecutive groups of exactly the batch size, except a last group that may be
  smaller and is not empty (23 writes in batches of 10 give groups of 10, 10 and 3).
  \<^verbatim>\<open>import_with_batching\<close>, when every new record has an amount that parses, makes one
  write call a group and applies the pacing delay after every group whose write
  returned, except the last group; no delay follows a write that raised.
  \<^verbatim>\<open>update_dashboard\<close> cuts its updates into groups of 10 and, as long as its writes
  return and \<^verbatim>\<open>delay_seconds\<close> is positive, pauses after every group except the last.
\<close>

theorem batches_paced:
  "(0 < bs \<longrightarrow>
      concat (batches bs xs) = xs
      \<and> (\<forall>g\<in>set (butlast (batches bs xs)). length g = bs)
      \<and> (\<forall>g\<in>set (batches bs xs). 0 < length g \<and> length g \<le> bs)
      \<and> length (batches bs xs) = (length xs + bs - 1) div bs)
   \<and> (length xs = 23 \<longrightarrow> map length (batches 10 xs) = [10, 10, 3])
   \<and> (0 < batch_size
        \<and> (\<forall>t\<in>set (new_transactions (existing_transaction_ids E w) csv_rows).
               parse_amount E t \<noteq> None) \<longrightarrow>
       (\<exists>w'. import_with_batching E w csv_rows batch_size = (Inr True, w')
          \<and> map (map_event length) (trace w') =
              map (map_event length) (trace w)
              @ concat (map (\<lambda>j. group_events (write_ok E (write_calls w + j))
                   (Suc j = length (batches (nat batch_size)
                                      (new_transactions (existing_transaction_ids E w) csv_rows)))
                   (length (batches (nat batch_size)
                              (new_transactions (existing_transaction_ids E w) csv_rows) ! j)))
                 [0..<length (batches (nat batch_size)
                                (new_transactions (existing_transaction_ids E w) csv_rows))])))
   \<and> ((\<forall>k. ok k) \<and> 0 < delay_seconds \<longrightarrow>
       (\<exists>d'. apply_all_updates ok delay_seconds all_updates d = (None, d')
          \<and> dash_trace d' =
              dash_trace d
              @ concat (map (\<lambda>j. group_events True (Suc j = length (update_batches all_updates))
                                    (update_batches all_updates ! j))
                          [0..<length (update_batches all_updates)])))"
proof -
  have a: "0 < bs \<longrightarrow>
      concat (batches bs xs) = xs
      \<and> (\<forall>g\<in>set (butlast (batches bs xs)). length g = bs)
      \<and> (\<forall>g\<in>set (batches bs xs). 0 < length g \<and> length g \<le> bs)
      \<and> length (batches bs xs) = (length xs + bs - 1) div bs"
    using concat_batches [of bs xs] batches_sizes [of bs xs] length_batches [of bs xs] by blast
  have b: "length xs = 23 \<longrightarrow> map length (batches 10 xs) = [10, 10, 3]"
    using batches_23 by blast
  show ?thesis
    using a b import_with_batching_trace [of batch_size E w csv_rows]
      apply_all_updates_trace [of ok delay_seconds all_updates d]
    by blast
qed

text \<open>
  The writes 1 to 23 in batches of 10, and two records imported in batches of one with
  every write returning: one delay, between the two groups.
\<close>

theorem batches_paced_witness:
  "map length (batches 10 [1 ..< 24 :: nat]) = [10, 10, 3]
   \<and> concat (batches 10 [1 ..< 24 :: nat]) = [1 ..< 24]
   \<and> map (map_event length)
        (trace (snd (import_with_batching calm empty_sheet [apple_purchase, dividend_no_id] 1)))
       = [Write 1 True, Sleep, Write 1 True]"
proof -
  note T = batches_paced [of 10 "[1 ..< 24 :: nat]" 1 calm empty_sheet
                             "[apple_purchase, dividend_no_id]"]
  have l: "length [1 ..< 24 :: nat] = 23" by simp
  have p: "0 < (10 :: nat)" by simp
  have z: "0 < (1 :: int)" by simp
  have g: "\<forall>t\<in>set (new_transactions (existing_transaction_ids calm empty_sheet)
                       [apple_purchase, dividend_no_id]). parse_amount calm t \<noteq> None"
    by code_simp
  have n: "new_transactions (existing_transaction_ids calm empty_sheet)
             [apple_purchase, dividend_no_id] = [apple_purchase, dividend_no_id]"
    by (simp add: new_transactions_def existing_transaction_ids_def empty_sheet_def)
  have bt: "batches (nat 1) [apple_purchase, dividend_no_id] = [[apple_purchase], [dividend_no_id]]"
    by (simp add: batches_def range_step_def slice_def)
  have w: "write_ok calm k" for k by (simp add: calm_def)
  have e: "trace empty_sheet = []" "write_calls empty_sheet = 0" by (simp_all add: empty_sheet_def)
  from T [THEN conjunct1] p
  have 1: "concat (batches 10 [1 ..< 24 :: nat]) = [1 ..< 24]" by blast
  from T [THEN conjunct2, THEN conjunct1] l
  have 2: "map length (batches 10 [1 ..< 24 :: nat]) = [10, 10, 3]" by blast
  from T [THEN conjunct2, THEN conjunct2, THEN conjunct1] z g
  obtain w' where r: "import_with_batching calm empty_sheet [apple_purchase, dividend_no_id] 1 = (Inr True, w')"
    and t: "map (map_event length) (trace w') =
              map (map_event length) (trace empty_sheet)
              @ concat (map (\<lambda>j. group_events (write_ok calm (write_calls empty_sheet + j))
                   (Suc j = length (batches (nat 1)
                                      (new_transactions (existing_transaction_ids calm empty_sheet) [apple_purchase, dividend_no_id])))
                   (length (batches (nat 1)
                              (new_transactions (existing_transaction_ids calm empty_sheet) [apple_purchase, dividend_no_id]) ! j)))
                 [0..<length (batches (nat 1)
                                (new_transactions (existing_transaction_ids calm empty_sheet) [apple_purchase, dividend_no_id]))])"
    by blast
  have u: "[0..<length [[apple_purchase], [dividend_no_id]]] = [0, Suc 0]"
    by (simp add: upt_rec)
  have "map (map_event length) (trace w') = [Write 1 True, Sleep, Write 1 True]"
    unfolding t n bt e u by (simp add: group_events_def w)
  with r 1 2 show ?thesis by simp
qed

section \<open>A record whose amount cannot be read\<close>








section \<open>Importing a batch again\<close>










section \<open>Synthesized transaction ids\<close>

text \<open>
  C5. Two distinct records without a TransactionID, in one batch and within one second
  of the clock: \<^verbatim>\<open>import_with_batching\<close> numbers the id by the batch, not by the record,
  and writes both under the same id; records whose TransactionID is present and empty
  keep the empty id. \<^verbatim>\<open>FinancialTracker.import_csv_transactions\<close> numbers by the row
  and gives the two records distinct ids.
\<close>

theorem import_with_batching_shared_id:
  "dividend_no_id ''Description'' \<noteq> payout_no_id ''Description''
   \<and> map row_transaction_id
        (transactions (snd (import_with_batching calm empty_sheet
                              [dividend_no_id, payout_no_id] 10)))
       = [''csv_0_1700000000'', ''csv_0_1700000000'']
   \<and> map row_transaction_id
        (transactions (snd (import_with_batching calm empty_sheet
                              [dividend_no_id(''TransactionID'' \<mapsto> ''''),
                               payout_no_id(''TransactionID'' \<mapsto> '''')] 10)))
       = ['''', '''']
   \<and> map row_transaction_id
        (transactions (snd (import_csv_transactions calm empty_sheet
                              [dividend_no_id, payout_no_id])))
       = [''csv_0_1700000000'', ''csv_1_1700000000'']"
  by code_simp

section \<open>A failed group of dashboard updates\<close>

text \<open>
  C4. Twelve updates of the dashboard make two groups. When the write of the first
  group raises, nothing catches the exception in the batched branch of
  \<^verbatim>\<open>update_dashboard\<close>: the loop ends and the second group is never attempted.
  (\<^verbatim>\<open>import_with_batching\<close> catches the exception of a group and goes on with the
  next one, as \<open>process_batches_trace\<close> shows.)
\<close>

theorem update_dashboard_failed_group_aborts:
  "length (update_batches twelve_updates) = 2
   \<and> fst (apply_all_updates (\<lambda>k. 0 < k) 1 twelve_updates blank_dashboard) = Some APIError
   \<and> dash_trace (snd (apply_all_updates (\<lambda>k. 0 < k) 1 twelve_updates blank_dashboard))
       = [Write (take 10 twelve_updates) False]"
  by code_simp

section \<open>The derived tables\<close>





















section \<open>Months as strings: their order\<close>





















section \<open>The cumulative balance and the monthly matrix\<close>





end
